theory Spec2Isabelle
  imports Main
begin

section \<open>Python strings\<close>

text \<open>
  A Python \<open>str\<close> is a sequence of Unicode code points and \<open>len\<close> counts code points,
  so a string is modelled as a list of code points (natural numbers).  \<open>u\<close> turns an
  ASCII literal of the theory into such a string.
\<close>

type_synonym pystr = "nat list"

definition u :: "string \<Rightarrow> pystr" where
  "u s = map of_char s"

text \<open>
  \<open>str.strip()\<close>, \<open>str.isspace()\<close> and the pattern \<open>\s\<close> of \<open>re\<close> on a \<open>str\<close> share one
  table of whitespace code points (CPython's \<open>Py_UNICODE_ISSPACE\<close>).
\<close>

definition is_space :: "nat \<Rightarrow> bool" where
  "is_space c \<longleftrightarrow>
     (9 \<le> c \<and> c \<le> 13) \<or> (28 \<le> c \<and> c \<le> 32) \<or> c = 133 \<or> c = 160 \<or> c = 5760 \<or>
     (8192 \<le> c \<and> c \<le> 8202) \<or> c = 8232 \<or> c = 8233 \<or> c = 8239 \<or> c = 8287 \<or> c = 12288"

text \<open>
  \<open>\d\<close> on a \<open>str\<close> pattern matches every Unicode decimal digit (category Nd); the ranges
  are those of Unicode 14.
\<close>

definition nd_ranges :: "(nat \<times> nat) list" where
  "nd_ranges =
    [(48, 57), (1632, 1641), (1776, 1785), (1984, 1993), (2406, 2415), (2534, 2543),
     (2662, 2671), (2790, 2799), (2918, 2927), (3046, 3055), (3174, 3183), (3302, 3311),
     (3430, 3439), (3558, 3567), (3664, 3673), (3792, 3801), (3872, 3881), (4160, 4169),
     (4240, 4249), (6112, 6121), (6160, 6169), (6470, 6479), (6608, 6617), (6784, 6793),
     (6800, 6809), (6992, 7001), (7088, 7097), (7232, 7241), (7248, 7257), (42528, 42537),
     (43216, 43225), (43264, 43273), (43472, 43481), (43504, 43513), (43600, 43609),
     (44016, 44025), (65296, 65305), (66720, 66729), (68912, 68921), (69734, 69743),
     (69872, 69881), (69942, 69951), (70096, 70105), (70384, 70393), (70736, 70745),
     (70864, 70873), (71248, 71257), (71360, 71369), (71472, 71481), (71904, 71913),
     (72016, 72025), (72784, 72793), (73040, 73049), (73120, 73129), (92768, 92777),
     (92864, 92873), (93008, 93017), (120782, 120831), (123200, 123209), (123632, 123641),
     (125264, 125273), (130032, 130041)]"

definition is_digit :: "nat \<Rightarrow> bool" where
  "is_digit c = list_ex (\<lambda>(lo, hi). lo \<le> c \<and> c \<le> hi) nd_ranges"

definition strip :: "pystr \<Rightarrow> pystr" where
  "strip s = rev (dropWhile is_space (rev (dropWhile is_space s)))"

text \<open>
  \<open>str.lower()\<close>.  Only the ASCII letters are mapped: the one use of \<open>lower\<close> in the
  program feeds a pattern made of the letters of \<open>chapter\<close>, a period, \<open>\s\<close> and \<open>\d\<close>, and
  no code point outside \<open>A\<close>..\<open>Z\<close> has a lower-case form that contains one of these letters
  or a period, or that changes whether it is whitespace or a digit.
\<close>

definition lower :: "pystr \<Rightarrow> pystr" where
  "lower s = map (\<lambda>c. if 65 \<le> c \<and> c \<le> 90 then c + 32 else c) s"

section \<open>Regular expressions\<close>

text \<open>
  The patterns of the program use character classes, literal text, \<open>+\<close> on a class, \<open>?\<close>,
  concatenation and alternation.  \<open>bt\<close> is the backtracking search of \<open>re\<close>: alternatives left to right,
  \<open>+\<close> and \<open>?\<close> greedy, the continuation \<open>k\<close> standing for the rest of the pattern.  It
  returns the text left after the match that the search finds first.
\<close>

datatype cls = Lit nat | NotLit nat | OneOf "nat list" | Space | Digit

fun cls_ok :: "cls \<Rightarrow> nat \<Rightarrow> bool" where
  "cls_ok (Lit a) c = (c = a)"
| "cls_ok (NotLit a) c = (c \<noteq> a)"
| "cls_ok (OneOf as) c = (c \<in> set as)"
| "cls_ok Space c = is_space c"
| "cls_ok Digit c = is_digit c"

datatype re = Atom cls | Chars pystr | Plus cls | Opt re | Seq re re | Alt re re

fun bt :: "re \<Rightarrow> pystr \<Rightarrow> (pystr \<Rightarrow> pystr option) \<Rightarrow> pystr option" where
  "bt (Atom c) [] k = None"
| "bt (Atom c) (x # xs) k = (if cls_ok c x then k xs else None)"
| "bt (Chars w) s k = (if take (length w) s = w then k (drop (length w) s) else None)"
| "bt (Plus c) [] k = None"
| "bt (Plus c) (x # xs) k =
     (if cls_ok c x
      then (case bt (Plus c) xs k of Some r \<Rightarrow> Some r | None \<Rightarrow> k xs)
      else None)"
| "bt (Opt r) s k = (case bt r s k of Some x \<Rightarrow> Some x | None \<Rightarrow> k s)"
| "bt (Seq a b) s k = bt a s (\<lambda>s'. bt b s' k)"
| "bt (Alt a b) s k = (case bt a s k of Some x \<Rightarrow> Some x | None \<Rightarrow> bt b s k)"

text \<open>\<open>re.match(p, s)\<close>: a match of \<open>p\<close> that starts at the first character of \<open>s\<close>.\<close>

definition re_match :: "re \<Rightarrow> pystr \<Rightarrow> bool" where
  "re_match p s = (bt p s Some \<noteq> None)"

text \<open>
  \<open>re.sub(p, repl, s)\<close>: the leftmost match is replaced and the search goes on behind it;
  where no match starts, the character is copied.  No pattern of the program matches the
  empty string; a match that consumes nothing is treated as no match.
\<close>

function re_sub :: "re \<Rightarrow> pystr \<Rightarrow> pystr \<Rightarrow> pystr" where
  "re_sub p repl [] = []"
| "re_sub p repl (x # xs) =
     (case bt p (x # xs) Some of
        None \<Rightarrow> x # re_sub p repl xs
      | Some rest \<Rightarrow>
          if length rest \<le> length xs then repl @ re_sub p repl rest
          else x # re_sub p repl xs)"
  by pat_completeness auto
termination
  by (relation "measure (\<lambda>(p, repl, s). length s)") auto

section \<open>Filename Sanitizer\<close>

text \<open>
  The three patterns of \<open>clean_filename\<close>: a tag \<open><[^>]+>\<close> (60 is \<open><\<close>, 62 is \<open>>\<close>), the
  class of the characters that are replaced, and \<open>\s+\<close>.
\<close>

definition tag_re :: re where
  "tag_re = Seq (Atom (Lit 60)) (Seq (Plus (NotLit 62)) (Atom (Lit 62)))"

text \<open>The code points of \<open><\<close>, \<open>>\<close>, \<open>:\<close>, the double quote, \<open>/\<close>, the backslash, \<open>|\<close>, \<open>?\<close> and \<open>*\<close>.\<close>

definition unsafe_chars :: "nat list" where
  "unsafe_chars = [60, 62, 58, 34, 47, 92, 124, 63, 42]"

definition unsafe_re :: re where
  "unsafe_re = Atom (OneOf unsafe_chars)"

definition spaces_re :: re where
  "spaces_re = Plus Space"

text \<open>
  \<open>clean_untruncated\<close> is the value of \<open>title\<close> after the three substitutions and the
  \<open>strip()\<close>, before the length limit of the last line is applied.
\<close>

definition clean_untruncated :: "pystr \<Rightarrow> pystr" where
  "clean_untruncated title =
     (let title = re_sub tag_re [] title;
          title = re_sub unsafe_re (u ''_'') title
      in strip (re_sub spaces_re (u '' '') title))"

definition clean_filename :: "pystr \<Rightarrow> pystr" where
  "clean_filename title =
     (let title = clean_untruncated title
      in if length title > 100 then take 100 title else title)"

section \<open>Node trees\<close>

text \<open>
  The tree that \<open>BeautifulSoup(html, 'html.parser')\<close> returns: text nodes, nodes whose
  text \<open>get_text\<close> leaves out (comments, declarations), and tags with their name and
  children.  A soup is the list of its top-level nodes.
\<close>

datatype node = Text pystr | Comment pystr | Element pystr "node list"

type_synonym soup = "node list"

fun get_text :: "node \<Rightarrow> pystr" where
  "get_text (Text s) = s"
| "get_text (Comment s) = []"
| "get_text (Element n cs) = concat (map get_text cs)"

definition soup_text :: "soup \<Rightarrow> pystr" where
  "soup_text soup = concat (map get_text soup)"

fun tags :: "node \<Rightarrow> node list" where
  "tags (Text s) = []"
| "tags (Comment s) = []"
| "tags (Element n cs) = Element n cs # concat (map tags cs)"

fun name :: "node \<Rightarrow> pystr" where
  "name (Element n cs) = n"
| "name (Text s) = []"
| "name (Comment s) = []"

text \<open>\<open>soup.find_all(names)\<close>: the tags with one of the names, in document order.\<close>

definition find_all :: "soup \<Rightarrow> pystr list \<Rightarrow> node list" where
  "find_all soup names = filter (\<lambda>e. name e \<in> set names) (concat (map tags soup))"

text \<open>\<open>soup.find(tag)\<close>: the first such tag, or \<open>None\<close>.\<close>

definition find_tag :: "soup \<Rightarrow> pystr \<Rightarrow> node option" where
  "find_tag soup tag = (case find_all soup [tag] of [] \<Rightarrow> None | e # _ \<Rightarrow> Some e)"

text \<open>\<open>for element in soup(names): element.decompose()\<close>.\<close>

fun decompose :: "pystr list \<Rightarrow> node \<Rightarrow> node list" where
  "decompose names (Element n cs) =
     (if n \<in> set names then [] else [Element n (concat (map (decompose names) cs))])"
| "decompose names (Text s) = [Text s]"
| "decompose names (Comment s) = [Comment s]"

section \<open>Title Resolver\<close>

text \<open>The pattern \<open>^(chapter|ch\.?)\s+\d+\<close>, used with \<open>re.match\<close> (46 is the period).\<close>

definition chapter_re :: re where
  "chapter_re =
     Seq (Alt (Chars (u ''chapter'')) (Seq (Chars (u ''ch'')) (Opt (Atom (Lit 46)))))
         (Seq (Plus Space) (Plus Digit))"

fun heading_loop :: "soup \<Rightarrow> pystr list \<Rightarrow> pystr option" where
  "heading_loop soup [] = None"
| "heading_loop soup (tag # rest) =
     (case find_tag soup tag of
        None \<Rightarrow> heading_loop soup rest
      | Some element \<Rightarrow>
          if strip (get_text element) \<noteq> [] then Some (strip (get_text element))
          else heading_loop soup rest)"

fun indicator_loop :: "node list \<Rightarrow> pystr option" where
  "indicator_loop [] = None"
| "indicator_loop (element # rest) =
     (let text = strip (get_text element)
      in if re_match chapter_re (lower text) then Some text else indicator_loop rest)"

definition extract_title_from_content :: "soup \<Rightarrow> pystr" where
  "extract_title_from_content soup =
     (case heading_loop soup [u ''h1'', u ''h2'', u ''h3'', u ''title''] of
        Some title \<Rightarrow> title
      | None \<Rightarrow>
          (case indicator_loop (find_all soup [u ''p'', u ''div'', u ''span'']) of
             Some text \<Rightarrow> text
           | None \<Rightarrow> u ''Untitled Chapter''))"

section \<open>Markup Converter\<close>

datatype py_error =
    IndexError | KeyError | TypeError | UnicodeDecodeError | OSError | LibraryError pystr
  | LoadFailed py_error

text \<open>
  The libraries the program calls, each able to raise: \<open>bytes.decode('utf-8')\<close>, the
  parser \<open>BeautifulSoup(html, 'html.parser')\<close>, and \<open>markdownify\<close> standing for
  \<open>md(str(soup), heading_style="ATX", bullets="-", strip=['script', 'style'])\<close>.
\<close>

record libs =
  decode_utf8 :: "nat list \<Rightarrow> py_error + pystr"
  BeautifulSoup :: "pystr \<Rightarrow> py_error + soup"
  markdownify :: "soup \<Rightarrow> py_error + pystr"

text \<open>The pattern \<open>\n{3,}\<close>: two newlines and then \<open>\n+\<close> (10 is the newline).\<close>

definition newlines_re :: re where
  "newlines_re = Seq (Atom (Lit 10)) (Seq (Atom (Lit 10)) (Plus (Lit 10)))"

text \<open>The last two lines of \<open>html_to_markdown\<close>, on the text the renderer returned.\<close>

definition clean_newlines :: "pystr \<Rightarrow> pystr" where
  "clean_newlines markdown_content = strip (re_sub newlines_re [10, 10] markdown_content)"

definition html_to_markdown :: "libs \<Rightarrow> pystr \<Rightarrow> py_error + pystr" where
  "html_to_markdown L html_content =
     (case BeautifulSoup L html_content of
        Inl e \<Rightarrow> Inl e
      | Inr soup \<Rightarrow>
          (let soup = concat (map (decompose [u ''script'', u ''style'', u ''meta'', u ''link'']) soup)
           in case markdownify L soup of
                Inl e \<Rightarrow> Inl e
              | Inr markdown_content \<Rightarrow> Inr (clean_newlines markdown_content)))"

section \<open>The container\<close>

text \<open>
  What \<open>epub.read_epub\<close> returns, as far as the program reads it.  An item has its
  identifier, whether it is an \<open>EpubHtml\<close>, and what \<open>get_content()\<close> returns or raises.
  \<open>get_metadata namespace name\<close> returns a list of \<open>(value, attributes)\<close> tuples, empty
  when the container has no such field, or raises.  The value of a tuple is a string, or
  \<open>None\<close> for an element without text; \<open>str_of\<close> is what an f-string prints for it.
\<close>

datatype pyval = PyNone | PyStr pystr

fun str_of :: "pyval \<Rightarrow> pystr" where
  "str_of PyNone = u ''None''"
| "str_of (PyStr s) = s"

datatype content = Bytes "nat list" | Str pystr

record item =
  get_id :: pystr
  is_html :: bool
  get_content :: "py_error + content"

type_synonym meta_entry = "pyval \<times> (pystr \<times> pystr) list"

record book =
  get_metadata :: "pystr \<Rightarrow> pystr \<Rightarrow> py_error + meta_entry list"
  spine :: "(pystr \<times> pystr) list"
  get_items :: "item list"

fun find_item :: "item list \<Rightarrow> pystr \<Rightarrow> item option" where
  "find_item [] item_id = None"
| "find_item (book_item # rest) item_id =
     (if get_id book_item = item_id then Some book_item else find_item rest item_id)"

fun get_spine_items :: "book \<Rightarrow> (pystr \<times> pystr) list \<Rightarrow> item list" where
  "get_spine_items b [] = []"
| "get_spine_items b ((item_id, linear) # rest) =
     (case find_item (get_items b) item_id of
        None \<Rightarrow> get_spine_items b rest
      | Some item \<Rightarrow>
          if is_html item then item # get_spine_items b rest else get_spine_items b rest)"

section \<open>Chapter Pipeline\<close>

text \<open>What the program prints, one constructor per message.\<close>

datatype event =
    Processing | Loaded pystr | FoundItems nat
  | SkipShort nat nat | SkipEmpty nat | Processed pystr | ItemError nat py_error
  | NoChapters | Saving | Saved pystr | SaveError pystr py_error | Completed nat
  | IndexCreated | FileNotFound | BadExtension | MainError py_error

text \<open>
  The body of the \<open>try\<close> in \<open>process_chapters\<close> for one item: an exception, one of the two
  \<open>continue\<close>s, or the chapter that is appended.
\<close>

datatype verdict = TooShort nat | NoContent | Accepted pystr pystr

definition process_item :: "libs \<Rightarrow> item \<Rightarrow> py_error + verdict" where
  "process_item L item =
     (case get_content item of
        Inl e \<Rightarrow> Inl e
      | Inr content \<Rightarrow>
          (case (case content of Bytes b \<Rightarrow> decode_utf8 L b | Str s \<Rightarrow> Inr s) of
             Inl e \<Rightarrow> Inl e
           | Inr html_content \<Rightarrow>
               (case BeautifulSoup L html_content of
                  Inl e \<Rightarrow> Inl e
                | Inr soup \<Rightarrow>
                    (let title = extract_title_from_content soup;
                         text_content = strip (soup_text soup)
                     in if length text_content < 100
                        then Inr (TooShort (length text_content))
                        else (case html_to_markdown L html_content of
                                Inl e \<Rightarrow> Inl e
                              | Inr markdown_content \<Rightarrow>
                                  if strip markdown_content = [] then Inr NoContent
                                  else Inr (Accepted title markdown_content))))))"

text \<open>
  The loop \<open>for i, item in enumerate(spine_items, 1)\<close>: the chapters appended and the
  messages printed, both in order.
\<close>

fun chapters_loop :: "libs \<Rightarrow> nat \<Rightarrow> item list \<Rightarrow> (pystr \<times> pystr) list \<times> event list" where
  "chapters_loop L i [] = ([], [])"
| "chapters_loop L i (item # rest) =
     (let (chapters, out) = chapters_loop L (Suc i) rest
      in case process_item L item of
           Inl e \<Rightarrow> (chapters, ItemError i e # out)
         | Inr (TooShort n) \<Rightarrow> (chapters, SkipShort i n # out)
         | Inr NoContent \<Rightarrow> (chapters, SkipEmpty i # out)
         | Inr (Accepted title markdown_content) \<Rightarrow>
             ((title, markdown_content) # chapters, Processed title # out))"

definition process_chapters :: "libs \<Rightarrow> book \<Rightarrow> (pystr \<times> pystr) list \<times> event list" where
  "process_chapters L b =
     (let spine_items = get_spine_items b (spine b);
          (chapters, out) = chapters_loop L 1 spine_items
      in (chapters, FoundItems (length spine_items) # out))"

section \<open>Output Writer\<close>

text \<open>
  The file system is seen through the calls made on it.  A world holds the calls made so
  far and the messages printed so far; \<open>os\<close> says which calls raise: \<open>read_epub\<close> is what
  \<open>epub.read_epub\<close> does on the input path, \<open>mkdir_error\<close> what
  \<open>output_dir.mkdir(exist_ok=True)\<close> raises, \<open>write_error filename\<close> what \<open>write_text\<close> raises
  for that file of the output directory.
\<close>

datatype fs_op = Mkdir pystr | WriteText pystr pystr pystr

record world =
  fs_ops :: "fs_op list"
  console :: "event list"

record os =
  read_epub :: "py_error + book"
  mkdir_error :: "py_error option"
  write_error :: "pystr \<Rightarrow> py_error option"

definition print :: "event list \<Rightarrow> world \<Rightarrow> world" where
  "print es w = w\<lparr>console := console w @ es\<rparr>"

definition mkdir :: "os \<Rightarrow> pystr \<Rightarrow> world \<Rightarrow> py_error option \<times> world" where
  "mkdir E dir w = (mkdir_error E, w\<lparr>fs_ops := fs_ops w @ [Mkdir dir]\<rparr>)"

definition write_text :: "os \<Rightarrow> pystr \<Rightarrow> pystr \<Rightarrow> pystr \<Rightarrow> world \<Rightarrow> py_error option \<times> world" where
  "write_text E dir filename text w =
     (write_error E filename, w\<lparr>fs_ops := fs_ops w @ [WriteText dir filename text]\<rparr>)"

text \<open>\<open>str(n)\<close> for a natural number, and the format \<open>02d\<close> (48 is the digit zero).\<close>

fun str_nat :: "nat \<Rightarrow> pystr" where
  "str_nat n = (if n < 10 then [48 + n] else str_nat (n div 10) @ [48 + n mod 10])"

declare str_nat.simps [simp del]

definition fmt02 :: "nat \<Rightarrow> pystr" where
  "fmt02 n = (if n < 10 then 48 # str_nat n else str_nat n)"

fun save_loop :: "os \<Rightarrow> pystr \<Rightarrow> nat \<Rightarrow> (pystr \<times> pystr) list \<Rightarrow> world \<Rightarrow> world" where
  "save_loop E dir i [] w = w"
| "save_loop E dir i ((title, content) # rest) w =
     (let clean_title = clean_filename title;
          filename = fmt02 i @ u ''_'' @ clean_title @ u ''.md'';
          full_content = u ''# '' @ title @ [10, 10] @ content
      in case write_text E dir filename full_content w of
           (None, w') \<Rightarrow> save_loop E dir (Suc i) rest (print [Saved filename] w')
         | (Some e, w') \<Rightarrow> save_loop E dir (Suc i) rest (print [SaveError filename e] w'))"

definition save_chapters ::
  "os \<Rightarrow> pystr \<Rightarrow> (pystr \<times> pystr) list \<Rightarrow> world \<Rightarrow> (py_error + unit) \<times> world" where
  "save_chapters E dir chapters w =
     (case mkdir E dir w of
        (Some e, w') \<Rightarrow> (Inl e, w')
      | (None, w') \<Rightarrow>
          (Inr (), print [Completed (length chapters)]
                     (save_loop E dir 1 chapters (print [Saving] w'))))"

section \<open>Book metadata\<close>

text \<open>\<open>x[0][0]\<close> on what \<open>get_metadata\<close> returned.\<close>

definition first_value :: "py_error + meta_entry list \<Rightarrow> py_error + pyval" where
  "first_value r =
     (case r of Inl e \<Rightarrow> Inl e | Inr [] \<Rightarrow> Inl IndexError | Inr (entry # _) \<Rightarrow> Inr (fst entry))"

fun join :: "pystr \<Rightarrow> pystr list \<Rightarrow> pystr" where
  "join sep [] = []"
| "join sep [x] = x"
| "join sep (x # y # ys) = x @ sep @ join sep (y # ys)"

text \<open>
  \<open>', '.join([author[0] for author in x])\<close> on what \<open>get_metadata\<close> returned; \<open>join\<close> raises
  \<open>TypeError\<close> when one of the values is not a string.
\<close>

definition joined_values :: "py_error + meta_entry list \<Rightarrow> py_error + pyval" where
  "joined_values r =
     (case r of
        Inl e \<Rightarrow> Inl e
      | Inr entries \<Rightarrow>
          if list_ex (\<lambda>author. fst author = PyNone) entries then Inl TypeError
          else Inr (PyStr (join (u '', '') (map (\<lambda>author. str_of (fst author)) entries))))"

text \<open>\<open>try: ... except (IndexError, KeyError): 'Unknown'\<close>; any other exception goes on.\<close>

definition or_unknown :: "py_error + pyval \<Rightarrow> py_error + pyval" where
  "or_unknown r =
     (case r of
        Inl e \<Rightarrow> if e = IndexError \<or> e = KeyError then Inr (PyStr (u ''Unknown'')) else Inl e
      | Inr v \<Rightarrow> Inr v)"

definition get_book_info :: "book option \<Rightarrow> py_error + (pystr \<rightharpoonup> pyval)" where
  "get_book_info bk =
     (case bk of
        None \<Rightarrow> Inr Map.empty
      | Some b \<Rightarrow>
          (case or_unknown (first_value (get_metadata b (u ''DC'') (u ''title''))) of
             Inl e \<Rightarrow> Inl e
           | Inr title \<Rightarrow>
               (case or_unknown (joined_values (get_metadata b (u ''DC'') (u ''creator''))) of
                  Inl e \<Rightarrow> Inl e
                | Inr author \<Rightarrow>
                    (case or_unknown (first_value (get_metadata b (u ''DC'') (u ''language''))) of
                       Inl e \<Rightarrow> Inl e
                     | Inr language \<Rightarrow>
                         Inr [u ''title'' \<mapsto> title, u ''author'' \<mapsto> author,
                              u ''language'' \<mapsto> language]))))"

text \<open>\<open>info[key]\<close>.\<close>

definition lookup :: "(pystr \<rightharpoonup> pyval) \<Rightarrow> pystr \<Rightarrow> py_error + pyval" where
  "lookup info key = (case info key of None \<Rightarrow> Inl KeyError | Some v \<Rightarrow> Inr v)"

section \<open>Index file\<close>

text \<open>The lines that the loop of \<open>create_index_file\<close> appends to \<open>index_content\<close>.\<close>

fun index_loop :: "nat \<Rightarrow> (pystr \<times> pystr) list \<Rightarrow> pystr" where
  "index_loop i [] = []"
| "index_loop i ((title, content) # rest) =
     (let clean_title = clean_filename title;
          filename = fmt02 i @ u ''_'' @ clean_title @ u ''.md''
      in (str_nat i @ u ''. ['' @ title @ u ''](./'' @ filename @ u '')'' @ [10])
         @ index_loop (Suc i) rest)"

definition index_header :: "pystr \<Rightarrow> pystr \<Rightarrow> pystr \<Rightarrow> nat \<Rightarrow> pystr" where
  "index_header title author language n =
     u ''# '' @ title @ [10, 10] @
     u ''**Author:** '' @ author @ u ''  '' @ [10] @
     u ''**Language:** '' @ language @ u ''  '' @ [10] @
     u ''**Chapters:** '' @ str_nat n @ [10, 10] @
     u ''## Table of Contents'' @ [10, 10]"

definition create_index_file ::
  "os \<Rightarrow> book option \<Rightarrow> pystr \<Rightarrow> (pystr \<times> pystr) list \<Rightarrow> world \<Rightarrow> (py_error + unit) \<times> world" where
  "create_index_file E bk dir chapters w =
     (case get_book_info bk of
        Inl e \<Rightarrow> (Inl e, w)
      | Inr info \<Rightarrow>
          (case lookup info (u ''title'') of
             Inl e \<Rightarrow> (Inl e, w)
           | Inr title \<Rightarrow>
               (case lookup info (u ''author'') of
                  Inl e \<Rightarrow> (Inl e, w)
                | Inr author \<Rightarrow>
                    (case lookup info (u ''language'') of
                       Inl e \<Rightarrow> (Inl e, w)
                     | Inr language \<Rightarrow>
                         (let index_content =
                                index_header (str_of title) (str_of author) (str_of language)
                                  (length chapters)
                                @ index_loop 1 chapters
                          in case write_text E dir (u ''README.md'') index_content w of
                               (Some e, w') \<Rightarrow> (Inl e, w')
                             | (None, w') \<Rightarrow> (Inr (), print [IndexCreated] w'))))))"

section \<open>The run\<close>

text \<open>
  \<open>load_epub\<close>: the book, and the title printed in the message; every exception of the
  \<open>try\<close> is raised again as \<open>Exception("Failed to load EPUB file: ...")\<close>.
\<close>

definition load_epub :: "os \<Rightarrow> py_error + book \<times> pyval" where
  "load_epub E =
     (case read_epub E of
        Inl e \<Rightarrow> Inl (LoadFailed e)
      | Inr b \<Rightarrow>
          (case first_value (get_metadata b (u ''DC'') (u ''title'')) of
             Inl e \<Rightarrow> Inl (LoadFailed e)
           | Inr title \<Rightarrow> Inr (b, title)))"

definition process :: "libs \<Rightarrow> os \<Rightarrow> pystr \<Rightarrow> world \<Rightarrow> (py_error + unit) \<times> world" where
  "process L E dir w =
     (let w = print [Processing] w
      in case load_epub E of
           Inl e \<Rightarrow> (Inl e, w)
         | Inr (b, title) \<Rightarrow>
             (let w = print [Loaded (str_of title)] w;
                  (chapters, out) = process_chapters L b;
                  w = print out w
              in if chapters = [] then (Inr (), print [NoChapters] w)
                 else (case save_chapters E dir chapters w of
                         (Inl e, w') \<Rightarrow> (Inl e, w')
                       | (Inr _, w') \<Rightarrow> create_index_file E (Some b) dir chapters w')))"

text \<open>
  \<open>main\<close>: the arguments are whether the input path exists, its suffix, the directory
  \<open><stem>_chapters\<close> beside it, and the \<open>--output\<close> option.  The result is the exit code.
\<close>

record args =
  epub_exists :: bool
  epub_suffix :: pystr
  default_dir :: pystr
  output_arg :: "pystr option"

definition main :: "libs \<Rightarrow> os \<Rightarrow> args \<Rightarrow> world \<Rightarrow> nat \<times> world" where
  "main L E a w =
     (if \<not> epub_exists a then (1, print [FileNotFound] w)
      else if lower (epub_suffix a) \<noteq> u ''.epub'' then (1, print [BadExtension] w)
      else (let dir = (case output_arg a of Some d \<Rightarrow> d | None \<Rightarrow> default_dir a)
            in case process L E dir w of
                 (Inl e, w') \<Rightarrow> (1, print [MainError e] w')
               | (Inr _, w') \<Rightarrow> (0, w')))"

section \<open>Predicates used in the properties\<close>

text \<open>Two whitespace characters in a row; whitespace at the start; whitespace at the end.\<close>

fun space_run :: "pystr \<Rightarrow> bool" where
  "space_run (a # b # cs) = ((is_space a \<and> is_space b) \<or> space_run (b # cs))"
| "space_run cs = False"

definition leading_space :: "pystr \<Rightarrow> bool" where
  "leading_space s = (s \<noteq> [] \<and> is_space (hd s))"

definition trailing_space :: "pystr \<Rightarrow> bool" where
  "trailing_space s = (s \<noteq> [] \<and> is_space (last s))"

text \<open>Three newline characters in a row.\<close>

fun newline_run :: "pystr \<Rightarrow> bool" where
  "newline_run (a # b # c # cs) = ((a = 10 \<and> b = 10 \<and> c = 10) \<or> newline_run (b # c # cs))"
| "newline_run cs = False"

text \<open>
  A stand-in parser and renderer for concrete runs: the parser returns the markup as one
  text node, the renderer returns the text of the tree.
\<close>

definition plain_libs :: libs where
  "plain_libs =
     \<lparr>decode_utf8 = (\<lambda>b. Inr b), BeautifulSoup = (\<lambda>h. Inr [Text h]),
      markdownify = (\<lambda>soup. Inr (soup_text soup))\<rparr>"

text \<open>
  The text of the first node with the given tag name, stripped, when there is such a node
  and the stripped text is not empty.
\<close>

definition heading_text :: "soup \<Rightarrow> pystr \<Rightarrow> pystr option" where
  "heading_text soup tag =
     (case find_tag soup tag of
        None \<Rightarrow> None
      | Some element \<Rightarrow>
          if strip (get_text element) = [] then None else Some (strip (get_text element)))"

text \<open>
  The other reading of "the first non-blank node": the stripped text of the first node,
  among all nodes with the given tag name, whose stripped text is not empty.
\<close>

definition first_nonblank :: "soup \<Rightarrow> pystr \<Rightarrow> pystr option" where
  "first_nonblank soup tag =
     (case filter (\<lambda>element. strip (get_text element) \<noteq> []) (find_all soup [tag]) of
        [] \<Rightarrow> None
      | element # _ \<Rightarrow> Some (strip (get_text element)))"

text \<open>
  A chapter indicator in words: the text, in lower case, starts with \<open>chapter\<close>, \<open>ch\<close> or
  \<open>ch.\<close>; what follows starts with a whitespace character, and the first character
  behind that whitespace is a digit.
\<close>

definition space_then_digit :: "pystr \<Rightarrow> bool" where
  "space_then_digit r =
     (r \<noteq> [] \<and> is_space (hd r) \<and>
      dropWhile is_space r \<noteq> [] \<and> is_digit (hd (dropWhile is_space r)))"

definition indicator :: "pystr \<Rightarrow> bool" where
  "indicator text =
     list_ex (\<lambda>pre. take (length pre) (lower text) = pre \<and>
                    space_then_digit (drop (length pre) (lower text)))
       [u ''chapter'', u ''ch'', u ''ch.'']"

text \<open>Concrete inputs: a text of 150 letters \<open>a\<close>, and an item that carries a given text.\<close>

definition long_text :: pystr where
  "long_text = replicate 150 97"

definition str_item :: "pystr \<Rightarrow> pystr \<Rightarrow> item" where
  "str_item ident text = \<lparr>get_id = ident, is_html = True, get_content = Inr (Str text)\<rparr>"

text \<open>
  The names of the files that a sequence of calls writes, in order; the number a string
  of decimal digits stands for; a line of the table of contents that links to a file.
\<close>

fun written_name :: "fs_op \<Rightarrow> pystr list" where
  "written_name (WriteText dir filename text) = [filename]"
| "written_name (Mkdir dir) = []"

definition written_names :: "fs_op list \<Rightarrow> pystr list" where
  "written_names ops = concat (map written_name ops)"



definition toc_line :: "nat \<Rightarrow> pystr \<Rightarrow> pystr \<Rightarrow> pystr" where
  "toc_line i title filename =
     str_nat i @ u ''. ['' @ title @ u ''](./'' @ filename @ u '')'' @ [10]"

text \<open>
  The naming rule in words: the position with at least two digits, an underscore, the
  sanitized title, and \<open>.md\<close>.
\<close>

definition chapter_filename :: "nat \<Rightarrow> pystr \<Rightarrow> pystr" where
  "chapter_filename i title = fmt02 i @ u ''_'' @ clean_filename title @ u ''.md''"

text \<open>
  Concrete inputs: a book made of the given items, all of them in the spine, with a
  title, one creator and a language; a file system on which every call succeeds; the
  world before the run.
\<close>

definition test_metadata :: "pystr \<Rightarrow> pystr \<Rightarrow> py_error + meta_entry list" where
  "test_metadata namespace key =
     (if key = u ''title'' then Inr [(PyStr (u ''Test Book''), [])]
      else if key = u ''creator'' then Inr [(PyStr (u ''A. Author''), [])]
      else if key = u ''language'' then Inr [(PyStr (u ''en''), [])]
      else Inr [])"

definition book_of :: "item list \<Rightarrow> book" where
  "book_of its =
     \<lparr>get_metadata = test_metadata, spine = map (\<lambda>it. (get_id it, u ''yes'')) its,
      get_items = its\<rparr>"


definition good_os :: "book \<Rightarrow> os" where
  "good_os b = \<lparr>read_epub = Inr b, mkdir_error = None, write_error = (\<lambda>filename. None)\<rparr>"

definition w0 :: world where
  "w0 = \<lparr>fs_ops = [], console = []\<rparr>"

text \<open>Concrete inputs: valid arguments, and two chapters with their own titles.\<close>

definition good_args :: args where
  "good_args =
     \<lparr>epub_exists = True, epub_suffix = u ''.epub'', default_dir = u ''book_chapters'',
      output_arg = None\<rparr>"

definition two_chapters :: "(pystr \<times> pystr) list" where
  "two_chapters = [(u ''Chapter 1'', u ''one''), (u ''Chapter 2'', u ''two'')]"

text \<open>
  Concrete inputs: a file system on which writing the named file raises \<open>OSError\<close> and
  every other call succeeds; a book without a title field, one without a creator field
  and one without a language field (\<open>get_metadata\<close> returns the empty list for it).
\<close>

definition failing_os :: "book \<Rightarrow> pystr \<Rightarrow> os" where
  "failing_os b bad =
     \<lparr>read_epub = Inr b, mkdir_error = None,
      write_error = (\<lambda>filename. if filename = bad then Some OSError else None)\<rparr>"

definition book_without :: "pystr \<Rightarrow> item list \<Rightarrow> book" where
  "book_without field its =
     \<lparr>get_metadata = (\<lambda>namespace key. if key = field then Inr [] else test_metadata namespace key),
      spine = map (\<lambda>it. (get_id it, u ''yes'')) its, get_items = its\<rparr>"

text \<open>
  A book whose creator element has no text: the value of the one creator tuple is \<open>None\<close>.
\<close>

definition book_blank_creator :: "item list \<Rightarrow> book" where
  "book_blank_creator its =
     \<lparr>get_metadata =
        (\<lambda>namespace key. if key = u ''creator'' then Inr [(PyNone, [])]
                          else test_metadata namespace key),
      spine = map (\<lambda>it. (get_id it, u ''yes'')) its, get_items = its\<rparr>"

text \<open>A book for which \<open>get_metadata\<close> raises \<open>KeyError\<close> on the given field.\<close>

definition book_raising :: "pystr \<Rightarrow> item list \<Rightarrow> book" where
  "book_raising field its =
     \<lparr>get_metadata =
        (\<lambda>namespace key. if key = field then Inl KeyError else test_metadata namespace key),
      spine = map (\<lambda>it. (get_id it, u ''yes'')) its, get_items = its\<rparr>"

text \<open>\<open>info[key]\<close> on the result of \<open>get_book_info\<close>, as \<open>create_index_file\<close> reads it.\<close>

definition info_field :: "book \<Rightarrow> pystr \<Rightarrow> py_error + pyval" where
  "info_field b key =
     (case get_book_info (Some b) of Inl e \<Rightarrow> Inl e | Inr info \<Rightarrow> lookup info key)"

section \<open>Properties of the Filename Sanitizer\<close>

lemma bt_Plus_Some:
  "bt (Plus c) s Some = (if s \<noteq> [] \<and> cls_ok c (hd s) then Some (dropWhile (cls_ok c) s) else None)"
proof (induction s)
  case Nil
  show ?case by simp
next
  case (Cons a s)
  then show ?case by (cases s) auto
qed

lemma cls_ok_Space: "cls_ok Space = is_space"
  by (rule ext) simp

lemma re_sub_unsafe:
  "re_sub unsafe_re repl s = concat (map (\<lambda>c. if c \<in> set unsafe_chars then repl else [c]) s)"
  by (induction s) (auto simp: unsafe_re_def)

lemma re_sub_spaces_Cons:
  "re_sub spaces_re repl (x # xs) =
     (if is_space x then repl @ re_sub spaces_re repl (dropWhile is_space xs)
      else x # re_sub spaces_re repl xs)"
  by (simp add: spaces_re_def bt_Plus_Some length_dropWhile_le cls_ok_Space)

lemma space_run_Cons:
  "space_run (a # r) = ((r \<noteq> [] \<and> is_space a \<and> is_space (hd r)) \<or> space_run r)"
  by (cases r) auto

lemma collapse_props:
  "\<not> space_run (re_sub spaces_re [32] s) \<and>
   (s \<noteq> [] \<longrightarrow> re_sub spaces_re [32] s \<noteq> [] \<and>
      (\<not> is_space (hd s) \<longrightarrow> hd (re_sub spaces_re [32] s) = hd s)) \<and>
   set (re_sub spaces_re [32] s) \<subseteq> insert 32 (set s)"
proof (induction s rule: length_induct)
  case (1 s)
  show ?case
  proof (cases s)
    case Nil
    then show ?thesis by simp
  next
    case (Cons x xs)
    have le: "length (dropWhile is_space xs) < length s"
      using Cons by (simp add: length_dropWhile_le le_imp_less_Suc)
    have lt: "length xs < length s" using Cons by simp
    note ih1 = 1 [rule_format, OF le] and ih2 = 1 [rule_format, OF lt]
    have sub: "set (dropWhile is_space xs) \<subseteq> set xs" by (rule set_dropWhileD [THEN subsetI])
    show ?thesis
    proof (cases "is_space x")
      case True
      have nsp: "dropWhile is_space xs \<noteq> [] \<Longrightarrow> \<not> is_space (hd (dropWhile is_space xs))"
        by (rule hd_dropWhile)
      show ?thesis
      proof (cases "dropWhile is_space xs = []")
        case True
        show ?thesis unfolding Cons re_sub_spaces_Cons True using \<open>is_space x\<close> by simp
      next
        case False
        with ih1 \<open>is_space x\<close> nsp sub show ?thesis unfolding Cons re_sub_spaces_Cons
          by (auto simp: space_run_Cons)
      qed
    next
      case False
      show ?thesis
        using ih2 False unfolding Cons re_sub_spaces_Cons
        by (cases xs) (auto simp: space_run_Cons)
    qed
  qed
qed


lemma strip_take: "strip s = take (length (strip s)) (dropWhile is_space s)"
proof -
  have "rev (dropWhile P (rev t)) = take (length (rev (dropWhile P (rev t)))) t" for P and t :: pystr
    by (simp add: dropWhile_eq_drop rev_drop)
  then show ?thesis unfolding strip_def .
qed

lemma space_run_take: "space_run (take n s) \<Longrightarrow> space_run s"
proof (induction s arbitrary: n)
  case Nil
  then show ?case by simp
next
  case (Cons a s)
  show ?case
  proof (cases n)
    case 0
    with Cons.prems show ?thesis by simp
  next
    case (Suc m)
    with Cons.prems have "(take m s \<noteq> [] \<and> is_space a \<and> is_space (hd (take m s))) \<or> space_run (take m s)"
      by (simp add: space_run_Cons)
    then show ?thesis
    proof
      assume h: "take m s \<noteq> [] \<and> is_space a \<and> is_space (hd (take m s))"
      then have "0 < m" and "s \<noteq> []" by (cases m; auto)+
      then show ?thesis using h by (simp add: space_run_Cons hd_take)
    next
      assume "space_run (take m s)"
      then show ?thesis using Cons.IH by (simp add: space_run_Cons)
    qed
  qed
qed

lemma space_run_dropWhile: "space_run (dropWhile P s) \<Longrightarrow> space_run s"
  by (induction s) (auto simp: space_run_Cons split: if_splits)

lemma space_run_strip: "space_run (strip s) \<Longrightarrow> space_run s"
  using space_run_take [of "length (strip s)" "dropWhile is_space s"] space_run_dropWhile strip_take
  by metis

lemma set_strip: "set (strip s) \<subseteq> set s"
proof -
  have "set (strip s) \<subseteq> set (dropWhile is_space s)"
    using strip_take [of s] set_take_subset by metis
  then show ?thesis using set_dropWhileD by fastforce
qed

lemma not_leading_space_strip: "\<not> leading_space (strip s)"
proof
  assume a: "leading_space (strip s)"
  let ?t = "dropWhile is_space s"
  from a have ne: "strip s \<noteq> []" by (simp add: leading_space_def)
  then have "hd (strip s) = hd ?t"
    using strip_take [of s] by (metis hd_take length_greater_0_conv)
  moreover have "?t \<noteq> []"
  proof
    assume e: "?t = []"
    have "strip s = []" unfolding strip_def e by simp
    with ne show False by simp
  qed
  ultimately show False using a hd_dropWhile [of is_space s] by (simp add: leading_space_def)
qed

lemma not_trailing_space_strip: "\<not> trailing_space (strip s)"
proof
  assume a: "trailing_space (strip s)"
  let ?l = "dropWhile is_space (rev (dropWhile is_space s))"
  from a have "?l \<noteq> []" by (simp add: trailing_space_def strip_def)
  moreover from this have "last (strip s) = hd ?l" by (simp add: strip_def last_rev)
  ultimately show False using a hd_dropWhile [of is_space "rev (dropWhile is_space s)"]
    by (simp add: trailing_space_def)
qed

lemma strip_idem: "strip (strip s) = strip s"
proof (cases "strip s = []")
  case True
  show ?thesis unfolding True by (simp add: strip_def)
next
  case False
  have 1: "dropWhile is_space (strip s) = strip s"
    using not_leading_space_strip [of s] False
    by (simp add: leading_space_def dropWhile_eq_self_iff)
  have 2: "dropWhile is_space (rev (strip s)) = rev (strip s)"
    using not_trailing_space_strip [of s] False
    by (simp add: trailing_space_def dropWhile_eq_self_iff hd_rev)
  show ?thesis unfolding strip_def [of "strip s"] 1 2 by simp
qed

lemma set_clean_untruncated: "set (clean_untruncated title) \<inter> set unsafe_chars = {}"
proof -
  let ?t = "re_sub unsafe_re (u ''_'') (re_sub tag_re [] title)"
  have a: "set ?t \<inter> set unsafe_chars = {}"
    by (auto simp: re_sub_unsafe u_def unsafe_chars_def split: if_splits)
  have "set (clean_untruncated title) \<subseteq> insert 32 (set ?t)"
    using set_strip collapse_props [of ?t] unfolding clean_untruncated_def Let_def u_def
    by (simp, blast)
  moreover have "32 \<notin> set unsafe_chars" by (simp add: unsafe_chars_def)
  ultimately show ?thesis using a by blast
qed

text \<open>
  Claim C3.  For every title, the result of \<open>clean_filename\<close> contains none of the nine
  characters \<open>< > : " / \ | ? *\<close>; the title as it is before the length limit has no two
  whitespace characters in a row and no whitespace at its start or end; the result is the
  first 100 characters of that title, with nothing appended, so it is at most 100
  characters long (and has no two whitespace characters in a row either).  The function
  is total, and it returns the empty string for the empty title.
\<close>

theorem clean_filename_safe:
  "set (clean_filename title) \<inter> set unsafe_chars = {} \<and>
   \<not> space_run (clean_untruncated title) \<and>
   \<not> leading_space (clean_untruncated title) \<and>
   \<not> trailing_space (clean_untruncated title) \<and>
   clean_filename title = take 100 (clean_untruncated title) \<and>
   length (clean_filename title) \<le> 100 \<and>
   \<not> space_run (clean_filename title) \<and>
   clean_filename [] = []"
proof -
  have tk: "clean_filename title = take 100 (clean_untruncated title)"
    by (simp add: clean_filename_def Let_def)
  have run: "\<not> space_run (clean_untruncated title)"
    using space_run_strip collapse_props unfolding clean_untruncated_def Let_def u_def
    by (simp, blast)
  have "set (clean_filename title) \<subseteq> set (clean_untruncated title)"
    unfolding tk by (rule set_take_subset)
  then have "set (clean_filename title) \<inter> set unsafe_chars = {}"
    using set_clean_untruncated [of title] by blast
  moreover have "\<not> space_run (clean_filename title)"
    unfolding tk using run space_run_take by blast
  moreover have "clean_filename [] = []"
    by (simp add: clean_filename_def clean_untruncated_def strip_def)
  ultimately show ?thesis
    using tk run
    by (simp add: clean_untruncated_def not_leading_space_strip not_trailing_space_strip)
qed

theorem clean_filename_safe_witness:
  "clean_filename (u ''a  <b>x</b>: y '') = u ''a x_ y'' \<and>
   set (u ''a x_ y'') \<inter> set unsafe_chars = {} \<and> \<not> space_run (u ''a x_ y'')"
  using clean_filename_safe [of "u ''a  <b>x</b>: y ''"]
  by (simp add: clean_filename_def clean_untruncated_def tag_re_def unsafe_re_def unsafe_chars_def
      spaces_re_def strip_def is_space_def u_def)

section \<open>Properties of the Markup Converter\<close>

lemma bt_newlines:
  "bt newlines_re s Some =
     (if take 3 s = [10, 10, 10] then Some (dropWhile (\<lambda>c. c = 10) s) else None)"
proof -
  have eq: "cls_ok (Lit 10) = (\<lambda>c. c = 10)" by (rule ext) simp
  show ?thesis
  proof (cases s)
    case Nil
    then show ?thesis by (simp add: newlines_re_def)
  next
    case (Cons a s1)
    show ?thesis
    proof (cases s1)
      case Nil
      with Cons show ?thesis by (simp add: newlines_re_def)
    next
      case (Cons b s2)
      with \<open>s = a # s1\<close> show ?thesis
        by (cases s2) (auto simp: newlines_re_def bt_Plus_Some eq)
    qed
  qed
qed

lemma re_sub_newlines_Cons:
  "re_sub newlines_re repl (x # xs) =
     (if take 3 (x # xs) = [10, 10, 10]
      then repl @ re_sub newlines_re repl (dropWhile (\<lambda>c. c = 10) xs)
      else x # re_sub newlines_re repl xs)"
  by (auto simp: bt_newlines length_dropWhile_le)

lemma newline_run_Cons:
  "newline_run (a # r) = ((a = 10 \<and> take 2 r = [10, 10]) \<or> newline_run r)"
proof (cases r)
  case Nil
  then show ?thesis by simp
next
  case (Cons b r1)
  then show ?thesis by (cases r1) auto
qed

lemma take1_eq: "(take (Suc 0) s = [a]) = (s \<noteq> [] \<and> hd s = a)"
  by (cases s) auto

lemma newlines_props:
  "\<not> newline_run (re_sub newlines_re [10, 10] s) \<and>
   (take 1 (re_sub newlines_re [10, 10] s) = [10] \<longrightarrow> take 1 s = [10]) \<and>
   (take 2 (re_sub newlines_re [10, 10] s) = [10, 10] \<longrightarrow> take 2 s = [10, 10])"
proof (induction s rule: length_induct)
  case (1 s)
  show ?case
  proof (cases s)
    case Nil
    then show ?thesis by simp
  next
    case (Cons x xs)
    let ?d = "dropWhile (\<lambda>c. c = 10) xs"
    have le: "length ?d < length s"
      using Cons by (simp add: length_dropWhile_le le_imp_less_Suc)
    have lt: "length xs < length s" using Cons by simp
    note ih1 = 1 [rule_format, OF le] and ih2 = 1 [rule_format, OF lt]
    show ?thesis
    proof (cases "take 3 (x # xs) = [10, 10, 10]")
      case True
      have "?d \<noteq> [] \<Longrightarrow> hd ?d \<noteq> 10"
        using hd_dropWhile [of "\<lambda>c. c = 10" xs] by simp
      then have nl: "take 1 ?d \<noteq> [10]" by (auto simp: take1_eq)
      from True have t2: "take 2 (x # xs) = [10, 10]"
        by (cases xs) (auto split: if_splits simp: take_Cons')
      let ?r = "re_sub newlines_re [10, 10] ?d"
      from ih1 nl have h: "?r = [] \<or> hd ?r \<noteq> 10" by (auto simp: take1_eq)
      from ih1 have norun: "\<not> newline_run ?r" by blast
      have res: "re_sub newlines_re [10, 10] (x # xs) = 10 # 10 # ?r"
        unfolding re_sub_newlines_Cons if_P [OF True] by simp
      have "\<not> newline_run (10 # 10 # ?r)"
        using h norun by (cases ?r) (auto simp: newline_run_Cons)
      then show ?thesis
        using t2 unfolding Cons res by simp
    next
      case False
      show ?thesis
      proof (cases "x = 10")
        case x: True
        have "take 2 xs \<noteq> [10, 10]" using False x by (cases xs) (auto simp: take_Cons')
        then show ?thesis
          using ih2 False x unfolding Cons re_sub_newlines_Cons
          by (auto simp: newline_run_Cons take1_eq take_Cons')
      next
        case x: False
        then show ?thesis
          using ih2 False unfolding Cons re_sub_newlines_Cons
          by (auto simp: newline_run_Cons)
      qed
    qed
  qed
qed

lemma re_sub_newlines_id: "\<not> newline_run s \<Longrightarrow> re_sub newlines_re repl s = s"
proof (induction s)
  case Nil
  show ?case by simp
next
  case (Cons x xs)
  from Cons.prems have ne: "take 3 (x # xs) \<noteq> [10, 10, 10]" and "\<not> newline_run xs"
    by (auto simp: newline_run_Cons take_Cons' split: if_splits)
  then show ?case unfolding re_sub_newlines_Cons if_not_P [OF ne] using Cons.IH by simp
qed

lemma newline_run_take: "newline_run (take n s) \<Longrightarrow> newline_run s"
proof (induction s arbitrary: n)
  case Nil
  then show ?case by simp
next
  case (Cons a s)
  show ?case
  proof (cases n)
    case 0
    with Cons.prems show ?thesis by simp
  next
    case (Suc m)
    with Cons.prems have "(a = 10 \<and> take 2 (take m s) = [10, 10]) \<or> newline_run (take m s)"
      by (simp add: newline_run_Cons)
    then show ?thesis
    proof
      assume h: "a = 10 \<and> take 2 (take m s) = [10, 10]"
      then have e: "take (min 2 m) s = [10, 10]" by simp
      then have "length (take (min 2 m) s) = 2" by simp
      then have "min 2 m = 2" by simp
      with e have "take 2 s = [10, 10]" by simp
      then show ?thesis using h by (simp add: newline_run_Cons)
    next
      assume "newline_run (take m s)"
      then show ?thesis using Cons.IH by (simp add: newline_run_Cons)
    qed
  qed
qed

lemma newline_run_dropWhile: "newline_run (dropWhile P s) \<Longrightarrow> newline_run s"
  by (induction s) (auto simp: newline_run_Cons split: if_splits)

lemma newline_run_strip: "newline_run (strip s) \<Longrightarrow> newline_run s"
  using newline_run_take [of "length (strip s)" "dropWhile is_space s"] newline_run_dropWhile
    strip_take
  by metis

lemma clean_newlines_idem:
  "\<not> newline_run (clean_newlines markdown_content) \<and>
   clean_newlines (clean_newlines markdown_content) = clean_newlines markdown_content"
proof -
  have run: "\<not> newline_run (clean_newlines markdown_content)"
    unfolding clean_newlines_def using newline_run_strip newlines_props by blast
  then have "re_sub newlines_re [10, 10] (clean_newlines markdown_content)
             = clean_newlines markdown_content"
    by (rule re_sub_newlines_id)
  then have "clean_newlines (clean_newlines markdown_content)
             = strip (clean_newlines markdown_content)"
    by (simp add: clean_newlines_def [of "clean_newlines markdown_content"])
  also have "\<dots> = clean_newlines markdown_content"
    by (simp add: clean_newlines_def strip_idem)
  finally show ?thesis using run by simp
qed

text \<open>
  Claim C7.  Whatever the parser and the renderer return, a result \<open>out\<close> of
  \<open>html_to_markdown\<close> has no three newline characters in a row, and collapsing the
  newlines and stripping it again returns \<open>out\<close> unchanged.
\<close>

theorem html_to_markdown_normalized:
  assumes "html_to_markdown L html_content = Inr out"
  shows "\<not> newline_run out \<and> clean_newlines out = out"
proof -
  from assms obtain m where "out = clean_newlines m"
    by (auto simp: html_to_markdown_def Let_def split: sum.splits)
  then show ?thesis using clean_newlines_idem [of m] by simp
qed

theorem html_to_markdown_normalized_witness:
  "html_to_markdown plain_libs (u ''a'' @ [10, 10, 10, 10, 10] @ u ''b'' @ [10, 10, 10])
     = Inr (u ''a'' @ [10, 10] @ u ''b'') \<and>
   \<not> newline_run (u ''a'' @ [10, 10] @ u ''b'') \<and>
   clean_newlines (u ''a'' @ [10, 10] @ u ''b'') = u ''a'' @ [10, 10] @ u ''b''"
proof -
  have r: "html_to_markdown plain_libs (u ''a'' @ [10, 10, 10, 10, 10] @ u ''b'' @ [10, 10, 10])
     = Inr (u ''a'' @ [10, 10] @ u ''b'')"
    by (simp add: html_to_markdown_def plain_libs_def soup_text_def clean_newlines_def
        newlines_re_def strip_def is_space_def u_def)
  from html_to_markdown_normalized [OF r] r show ?thesis by simp
qed

section \<open>Properties of the Title Resolver\<close>

lemma is_digit_bounds:
  "is_digit c \<Longrightarrow>
     (48 \<le> c \<and> c \<le> 57) \<or> (1632 \<le> c \<and> c \<le> 4249) \<or> (6112 \<le> c \<and> c \<le> 7257) \<or> 42528 \<le> c"
  unfolding is_digit_def nd_ranges_def by simp linarith

lemma space_not_digit: "is_space c \<Longrightarrow> \<not> is_digit c"
  using is_digit_bounds [of c] unfolding is_space_def by linarith

lemma bt_Plus_k:
  assumes "\<And>t. t \<noteq> [] \<Longrightarrow> cls_ok c (hd t) \<Longrightarrow> k t = None"
  shows "bt (Plus c) s k =
           (if s \<noteq> [] \<and> cls_ok c (hd s) then k (dropWhile (cls_ok c) s) else None)"
proof (induction s)
  case Nil
  show ?case by simp
next
  case (Cons x xs)
  show ?case
  proof (cases "xs \<noteq> [] \<and> cls_ok c (hd xs)")
    case True
    then have "k xs = None" using assms by simp
    with True Cons show ?thesis by (auto split: option.splits)
  next
    case False
    then have "dropWhile (cls_ok c) xs = xs" by (cases xs) auto
    with False Cons show ?thesis by auto
  qed
qed

lemma bt_space_digit:
  "bt (Seq (Plus Space) (Plus Digit)) r Some \<noteq> None \<longleftrightarrow> space_then_digit r"
proof -
  have k: "bt (Plus Digit) t Some = None" if "t \<noteq> []" "cls_ok Space (hd t)" for t
    using that by (simp add: bt_Plus_Some space_not_digit)
  show ?thesis
    using bt_Plus_k [of Space "\<lambda>r'. bt (Plus Digit) r' Some" r, OF k]
    by (simp add: bt_Plus_Some space_then_digit_def cls_ok_Space)
qed


lemma take_ch_dot:
  "take 3 s = u ''ch.'' \<longleftrightarrow> take 2 s = u ''ch'' \<and> drop 2 s \<noteq> [] \<and> hd (drop 2 s) = 46"
proof (cases s)
  case Nil
  then show ?thesis by (simp add: u_def)
next
  case s: (Cons a s1)
  show ?thesis
  proof (cases s1)
    case Nil
    with s show ?thesis by (simp add: u_def)
  next
    case (Cons b s2)
    with s show ?thesis by (cases s2) (auto simp: u_def)
  qed
qed

lemma length_prefixes:
  "length (u ''chapter'') = 7" "length (u ''ch'') = 2" "length (u ''ch.'') = 3"
  by (simp_all add: u_def)

lemma re_match_chapter_re:
  "re_match chapter_re s \<longleftrightarrow>
     (take 7 s = u ''chapter'' \<and> space_then_digit (drop 7 s)) \<or>
     (take 2 s = u ''ch'' \<and> space_then_digit (drop 2 s)) \<or>
     (take 3 s = u ''ch.'' \<and> space_then_digit (drop 3 s))"
proof -
  let ?K = "\<lambda>r. bt (Seq (Plus Space) (Plus Digit)) r Some"
  have K: "?K r \<noteq> None \<longleftrightarrow> space_then_digit r" for r by (rule bt_space_digit)
  note l7 = length_prefixes(1) and l2 = length_prefixes(2)
  have A: "bt (Chars (u ''chapter'')) s ?K \<noteq> None
           \<longleftrightarrow> take 7 s = u ''chapter'' \<and> space_then_digit (drop 7 s)"
    using K [of "drop 7 s"] by (simp add: l7 del: bt.simps(7))
  have dot: "bt (Opt (Atom (Lit 46))) r ?K \<noteq> None
             \<longleftrightarrow> (r \<noteq> [] \<and> hd r = 46 \<and> space_then_digit (tl r)) \<or> space_then_digit r" for r
    using K [of r] K [of "tl r"]
    by (cases r) (auto simp del: bt.simps(7) split: option.splits)
  have B: "bt (Seq (Chars (u ''ch'')) (Opt (Atom (Lit 46)))) s ?K \<noteq> None
           \<longleftrightarrow> take 2 s = u ''ch'' \<and>
               ((drop 2 s \<noteq> [] \<and> hd (drop 2 s) = 46 \<and> space_then_digit (drop 3 s)) \<or>
                space_then_digit (drop 2 s))"
  proof -
    have "tl (drop 2 s) = drop 3 s" by (simp add: drop_Suc tl_drop numeral_3_eq_3 numeral_2_eq_2)
    moreover have "bt (Seq (Chars (u ''ch'')) (Opt (Atom (Lit 46)))) s ?K
          = (if take 2 s = u ''ch'' then bt (Opt (Atom (Lit 46))) (drop 2 s) ?K else None)"
      unfolding bt.simps(7) [of "Chars _"] bt.simps(3) l2 ..
    ultimately show ?thesis
      using dot [of "drop 2 s"] by (simp del: bt.simps(6,7))
  qed
  have "re_match chapter_re s \<longleftrightarrow>
          bt (Chars (u ''chapter'')) s ?K \<noteq> None \<or>
          bt (Seq (Chars (u ''ch'')) (Opt (Atom (Lit 46)))) s ?K \<noteq> None"
    unfolding re_match_def chapter_re_def bt.simps(7) [of "Alt _ _"] bt.simps(8)
    by (auto split: option.splits)
  then show ?thesis unfolding A B take_ch_dot by blast
qed

lemma re_match_indicator: "re_match chapter_re (lower text) = indicator text"
  unfolding re_match_chapter_re indicator_def
  by (auto simp: length_prefixes)

lemma indicator_nonempty: "indicator text \<Longrightarrow> text \<noteq> []"
  by (auto simp: indicator_def lower_def u_def)


lemma heading_loop_Cons:
  "heading_loop soup (tag # rest) =
     (case heading_text soup tag of Some t \<Rightarrow> Some t | None \<Rightarrow> heading_loop soup rest)"
  by (simp add: heading_text_def split: option.splits)

lemma heading_loop_nonempty: "heading_loop soup names = Some t \<Longrightarrow> t \<noteq> []"
  by (induction names) (auto split: option.splits if_splits)

lemma indicator_loop_find:
  "indicator_loop es =
     map_option (\<lambda>e. strip (get_text e)) (List.find (\<lambda>e. indicator (strip (get_text e))) es)"
  by (induction es) (simp_all add: Let_def re_match_indicator)

lemma indicator_loop_nonempty: "indicator_loop es = Some t \<Longrightarrow> t \<noteq> []"
  by (induction es) (auto simp: Let_def re_match_indicator indicator_nonempty split: if_splits)

lemma untitled_nonempty: "u ''Untitled Chapter'' \<noteq> []"
  by (simp add: u_def)

text \<open>
  Claim C4, as the code has it.  For every node tree the Title Resolver returns a title
  that is not empty.  Only the first node of each kind is looked at:
  the first \<open>h1\<close> node decides when its text is not blank; otherwise the first \<open>h2\<close> node,
  then the first \<open>h3\<close> node, then the first \<open>title\<close> node, each under the same check (a
  blank first \<open>h1\<close> hands over to \<open>h2\<close> even when a later \<open>h1\<close> has text).  When none of the
  four gives a title and no \<open>p\<close>, \<open>div\<close> or \<open>span\<close> node is a chapter indicator, the result is
  \<open>Untitled Chapter\<close>; so it is for the empty tree.
\<close>

theorem extract_title_total:
  "extract_title_from_content soup \<noteq> [] \<and>
   (heading_text soup (u ''h1'') = Some t \<longrightarrow> extract_title_from_content soup = t) \<and>
   (heading_text soup (u ''h1'') = None \<and> heading_text soup (u ''h2'') = Some t
      \<longrightarrow> extract_title_from_content soup = t) \<and>
   (heading_text soup (u ''h1'') = None \<and> heading_text soup (u ''h2'') = None \<and>
    heading_text soup (u ''h3'') = Some t
      \<longrightarrow> extract_title_from_content soup = t) \<and>
   (heading_text soup (u ''h1'') = None \<and> heading_text soup (u ''h2'') = None \<and>
    heading_text soup (u ''h3'') = None \<and> heading_text soup (u ''title'') = Some t
      \<longrightarrow> extract_title_from_content soup = t) \<and>
   (heading_text soup (u ''h1'') = None \<and> heading_text soup (u ''h2'') = None \<and>
    heading_text soup (u ''h3'') = None \<and> heading_text soup (u ''title'') = None \<and>
    (\<forall>e \<in> set (find_all soup [u ''p'', u ''div'', u ''span'']).
        \<not> indicator (strip (get_text e)))
      \<longrightarrow> extract_title_from_content soup = u ''Untitled Chapter'') \<and>
   extract_title_from_content [] = u ''Untitled Chapter''"
proof -
  have ne: "extract_title_from_content soup \<noteq> []"
    unfolding extract_title_from_content_def
    using heading_loop_nonempty indicator_loop_nonempty untitled_nonempty
    by (auto split: option.splits)
  have none: "indicator_loop es = None" if "\<forall>e \<in> set es. \<not> indicator (strip (get_text e))" for es
    using that by (induction es) (simp_all add: Let_def re_match_indicator)
  have empty: "extract_title_from_content [] = u ''Untitled Chapter''"
    by (simp add: extract_title_from_content_def find_tag_def find_all_def)
  show ?thesis
    using ne none [of "find_all soup [u ''p'', u ''div'', u ''span'']"] empty
    unfolding extract_title_from_content_def heading_loop_Cons
    by (auto split: option.splits)
qed

theorem extract_title_total_witness:
  "heading_text [Element (u ''h1'') [Text (u ''  '')], Element (u ''h1'') [Text (u ''Real'')],
                 Element (u ''h2'') [Text (u '' Sub '')]] (u ''h1'') = None \<and>
   heading_text [Element (u ''h1'') [Text (u ''  '')], Element (u ''h1'') [Text (u ''Real'')],
                 Element (u ''h2'') [Text (u '' Sub '')]] (u ''h2'') = Some (u ''Sub'') \<and>
   extract_title_from_content
     [Element (u ''h1'') [Text (u ''  '')], Element (u ''h1'') [Text (u ''Real'')],
      Element (u ''h2'') [Text (u '' Sub '')]] = u ''Sub''"
proof -
  let ?soup = "[Element (u ''h1'') [Text (u ''  '')], Element (u ''h1'') [Text (u ''Real'')],
                Element (u ''h2'') [Text (u '' Sub '')]]"
  have 1: "heading_text ?soup (u ''h1'') = None"
    by (simp add: heading_text_def find_tag_def find_all_def strip_def is_space_def u_def)
  have 2: "heading_text ?soup (u ''h2'') = Some (u ''Sub'')"
    by (simp add: heading_text_def find_tag_def find_all_def strip_def is_space_def u_def)
  from extract_title_total [of ?soup "u ''Sub''"] 1 2 show ?thesis by blast
qed

text \<open>
  The claim as stated fails where "the first non-blank \<open>h1\<close>" is not the first \<open>h1\<close>: in a
  tree with a blank \<open>h1\<close> followed by an \<open>h1\<close> with the text \<open>Real\<close>, the first non-blank \<open>h1\<close>
  has the text \<open>Real\<close>, and the Title Resolver returns \<open>Untitled Chapter\<close>.
\<close>

theorem first_nonblank_h1_counterexample:
  "first_nonblank [Element (u ''h1'') [Text (u '' '')], Element (u ''h1'') [Text (u ''Real'')]]
     (u ''h1'') = Some (u ''Real'') \<and>
   extract_title_from_content
     [Element (u ''h1'') [Text (u '' '')], Element (u ''h1'') [Text (u ''Real'')]]
     = u ''Untitled Chapter'' \<and>
   extract_title_from_content
     [Element (u ''h1'') [Text (u '' '')], Element (u ''h1'') [Text (u ''Real'')]]
     \<noteq> u ''Real''"
proof -
  have 1: "first_nonblank [Element (u ''h1'') [Text (u '' '')], Element (u ''h1'') [Text (u ''Real'')]]
     (u ''h1'') = Some (u ''Real'')"
    by (simp add: first_nonblank_def find_all_def strip_def is_space_def u_def)
  have 2: "extract_title_from_content
     [Element (u ''h1'') [Text (u '' '')], Element (u ''h1'') [Text (u ''Real'')]]
     = u ''Untitled Chapter''"
    by (simp add: extract_title_from_content_def find_tag_def find_all_def strip_def
        is_space_def u_def)
  from 1 2 show ?thesis by (simp add: u_def)
qed

text \<open>
  Claim C5, as the code has it.  When none of the first \<open>h1\<close>, \<open>h2\<close>, \<open>h3\<close> and \<open>title\<close> nodes
  gives a title, the Title Resolver goes through the \<open>p\<close>, \<open>div\<close> and \<open>span\<close> nodes in
  document order and returns the stripped text of the first one that is a chapter
  indicator: in lower case it starts with \<open>chapter\<close>, \<open>ch\<close> or \<open>ch.\<close>, followed by at least
  one whitespace character and then a digit.  Without such a node it returns
  \<open>Untitled Chapter\<close>.  \<open>ch. 3\<close> and \<open>Chapter 12\<close> are indicators; \<open>ch.3\<close>, with no
  whitespace before the digit, is not.
\<close>

theorem indicator_scan:
  assumes "\<forall>tag \<in> set [u ''h1'', u ''h2'', u ''h3'', u ''title'']. heading_text soup tag = None"
  shows "extract_title_from_content soup =
           (case List.find (\<lambda>e. indicator (strip (get_text e)))
                   (find_all soup [u ''p'', u ''div'', u ''span'']) of
              Some e \<Rightarrow> strip (get_text e)
            | None \<Rightarrow> u ''Untitled Chapter'') \<and>
         indicator (u ''ch. 3'') \<and> indicator (u ''Chapter 12'') \<and> \<not> indicator (u ''ch.3'')"
proof -
  have "heading_loop soup [u ''h1'', u ''h2'', u ''h3'', u ''title''] = None"
    using assms unfolding heading_loop_Cons by simp
  then have "extract_title_from_content soup =
           (case List.find (\<lambda>e. indicator (strip (get_text e)))
                   (find_all soup [u ''p'', u ''div'', u ''span'']) of
              Some e \<Rightarrow> strip (get_text e)
            | None \<Rightarrow> u ''Untitled Chapter'')"
    by (simp add: extract_title_from_content_def indicator_loop_find split: option.splits)
  moreover have "indicator (u ''ch. 3'')"
    by (simp add: indicator_def space_then_digit_def lower_def is_space_def is_digit_def
        nd_ranges_def u_def)
  moreover have "indicator (u ''Chapter 12'')"
    by (simp add: indicator_def space_then_digit_def lower_def is_space_def is_digit_def
        nd_ranges_def u_def)
  moreover have "\<not> indicator (u ''ch.3'')"
    by (simp add: indicator_def space_then_digit_def lower_def is_space_def u_def)
  ultimately show ?thesis by blast
qed

theorem indicator_scan_witness:
  "extract_title_from_content
     [Comment (u ''x''), Element (u ''div'') [Element (u ''p'') [Text (u '' Ch. 3 '')]],
      Element (u ''p'') [Text (u ''chapter 4'')]] = u ''Ch. 3''"
proof -
  let ?soup = "[Comment (u ''x''), Element (u ''div'') [Element (u ''p'') [Text (u '' Ch. 3 '')]],
                Element (u ''p'') [Text (u ''chapter 4'')]]"
  have h: "\<forall>tag \<in> set [u ''h1'', u ''h2'', u ''h3'', u ''title'']. heading_text ?soup tag = None"
    by (simp add: heading_text_def find_tag_def find_all_def u_def)
  have s: "strip (u '' Ch. 3 '') = u ''Ch. 3''"
    by (simp add: strip_def is_space_def u_def)
  have i: "indicator (u ''Ch. 3'')"
    by (simp add: indicator_def space_then_digit_def lower_def is_space_def is_digit_def
        nd_ranges_def u_def)
  have f: "find_all ?soup [u ''p'', u ''div'', u ''span'']
           = [Element (u ''div'') [Element (u ''p'') [Text (u '' Ch. 3 '')]],
              Element (u ''p'') [Text (u '' Ch. 3 '')],
              Element (u ''p'') [Text (u ''chapter 4'')]]"
    by (simp add: find_all_def u_def)
  from indicator_scan [OF h] show ?thesis unfolding f by (simp add: s i)
qed

text \<open>
  The claim as stated fails: a \<open>p\<close> node with the text \<open>ch.3\<close> (\<open>ch\<close>, a period, a digit) in a
  tree without headings is not taken as the title.
\<close>

theorem indicator_needs_whitespace_counterexample:
  "extract_title_from_content [Element (u ''p'') [Text (u ''ch.3'')]] = u ''Untitled Chapter'' \<and>
   extract_title_from_content [Element (u ''p'') [Text (u ''ch.3'')]] \<noteq> u ''ch.3''"
proof -
  have "extract_title_from_content [Element (u ''p'') [Text (u ''ch.3'')]] = u ''Untitled Chapter''"
    by (simp add: extract_title_from_content_def find_tag_def find_all_def re_match_def
        chapter_re_def lower_def strip_def is_space_def u_def)
  then show ?thesis by (simp add: u_def)
qed

section \<open>Properties of the Fragment Classifier\<close>

lemma process_item_cases:
  assumes "get_content item = Inr content"
    and "(case content of Bytes b \<Rightarrow> decode_utf8 L b | Str s \<Rightarrow> Inr s) = Inr html_content"
    and "BeautifulSoup L html_content = Inr soup"
  shows "process_item L item =
           (if length (strip (soup_text soup)) < 100
            then Inr (TooShort (length (strip (soup_text soup))))
            else case html_to_markdown L html_content of
                   Inl e \<Rightarrow> Inl e
                 | Inr markdown_content \<Rightarrow>
                     if strip markdown_content = [] then Inr NoContent
                     else Inr (Accepted (extract_title_from_content soup) markdown_content))"
  using assms by (simp add: process_item_def Let_def)

text \<open>
  Claim C6.  For a fragment whose content is read, decoded and parsed: when the stripped
  plain text of the tree has fewer than 100 characters the fragment is skipped as too
  short, whatever the conversion would give; from 100 characters on, it is skipped when
  the converted text is empty after stripping, and appended as a chapter otherwise.
\<close>

theorem fragment_classifier:
  assumes "get_content item = Inr content"
    and "(case content of Bytes b \<Rightarrow> decode_utf8 L b | Str s \<Rightarrow> Inr s) = Inr html_content"
    and "BeautifulSoup L html_content = Inr soup"
  shows "(length (strip (soup_text soup)) < 100 \<longrightarrow>
            process_item L item = Inr (TooShort (length (strip (soup_text soup)))) \<and>
            fst (chapters_loop L i [item]) = []) \<and>
         (100 \<le> length (strip (soup_text soup)) \<and>
          html_to_markdown L html_content = Inr markdown_content \<and> strip markdown_content = [] \<longrightarrow>
            process_item L item = Inr NoContent \<and> fst (chapters_loop L i [item]) = []) \<and>
         (100 \<le> length (strip (soup_text soup)) \<and>
          html_to_markdown L html_content = Inr markdown_content \<and> strip markdown_content \<noteq> [] \<longrightarrow>
            process_item L item = Inr (Accepted (extract_title_from_content soup) markdown_content) \<and>
            fst (chapters_loop L i [item]) = [(extract_title_from_content soup, markdown_content)])"
  using process_item_cases [OF assms] by simp

lemma strip_long_text: "strip long_text = long_text"
  by (simp add: strip_def long_text_def is_space_def)

lemma length_long_text: "length long_text = 150"
  by (simp add: long_text_def)

lemma no_newline_run: "10 \<notin> set s \<Longrightarrow> \<not> newline_run s"
  by (induction s) (auto simp: newline_run_Cons)

lemma clean_newlines_long_text: "clean_newlines long_text = long_text"
proof -
  have "\<not> newline_run long_text" by (rule no_newline_run) (simp add: long_text_def)
  then show ?thesis by (simp add: clean_newlines_def re_sub_newlines_id strip_long_text)
qed

lemma html_to_markdown_long_text: "html_to_markdown plain_libs long_text = Inr long_text"
  by (simp add: html_to_markdown_def plain_libs_def soup_text_def clean_newlines_long_text)

theorem fragment_classifier_witness:
  "length (strip (soup_text [Text long_text])) = 150 \<and>
   process_item plain_libs (str_item (u ''c1'') long_text)
     = Inr (Accepted (extract_title_from_content [Text long_text]) long_text) \<and>
   fst (chapters_loop plain_libs 1 [str_item (u ''c1'') long_text])
     = [(extract_title_from_content [Text long_text], long_text)]"
proof -
  have a: "get_content (str_item (u ''c1'') long_text) = Inr (Str long_text)"
    by (simp add: str_item_def)
  have b: "(case Str long_text of Bytes b \<Rightarrow> decode_utf8 plain_libs b | Str s \<Rightarrow> Inr s)
           = Inr long_text" by simp
  have c: "BeautifulSoup plain_libs long_text = Inr [Text long_text]"
    by (simp add: plain_libs_def)
  have d: "length (strip (soup_text [Text long_text])) = 150"
    by (simp add: soup_text_def strip_long_text length_long_text)
  have e: "strip long_text \<noteq> []" using length_long_text strip_long_text by auto
  from fragment_classifier [OF a b c, where markdown_content = long_text and i = 1] d e
    html_to_markdown_long_text
  show ?thesis by simp
qed

section \<open>Properties of the Output Writer\<close>

lemma fs_ops_print [simp]: "fs_ops (print es w) = fs_ops w"
  by (simp add: print_def)

lemma written_names_append [simp]:
  "written_names (a @ b) = written_names a @ written_names b"
  by (simp add: written_names_def)

lemma save_loop_names:
  "written_names (fs_ops (save_loop E dir i chapters w))
     = written_names (fs_ops w)
       @ map (\<lambda>(k, ch). chapter_filename k (fst ch)) (List.enumerate i chapters)"
proof (induction chapters arbitrary: i w)
  case Nil
  show ?case by simp
next
  case (Cons ch chapters)
  obtain title content where ch: "ch = (title, content)" by (cases ch)
  let ?f = "chapter_filename i title"
  let ?w1 = "w\<lparr>fs_ops := fs_ops w @ [WriteText dir ?f (u ''# '' @ title @ [10, 10] @ content)]\<rparr>"
  have "\<exists>es. save_loop E dir i (ch # chapters) w = save_loop E dir (Suc i) chapters (print es ?w1)"
    unfolding ch
    by (cases "write_error E ?f") (auto simp: write_text_def Let_def chapter_filename_def)
  then obtain es where
    s: "save_loop E dir i (ch # chapters) w = save_loop E dir (Suc i) chapters (print es ?w1)" ..
  have w1: "written_names (fs_ops (print es ?w1)) = written_names (fs_ops w) @ [?f]"
    by (simp add: written_names_def)
  show ?case
    unfolding s Cons.IH w1 by (simp add: ch)
qed







lemma save_chapters_ok:
  assumes "mkdir_error E = None"
  shows "save_chapters E dir chapters w =
           (Inr (), print [Completed (length chapters)]
                      (save_loop E dir 1 chapters
                         (print [Saving] (w\<lparr>fs_ops := fs_ops w @ [Mkdir dir]\<rparr>))))"
  using assms by (simp add: save_chapters_def mkdir_def)

lemma save_chapters_names:
  assumes "mkdir_error E = None" and "fs_ops w = []"
  shows "written_names (fs_ops (snd (save_chapters E dir chapters w)))
           = map (\<lambda>(k, ch). chapter_filename k (fst ch)) (List.enumerate 1 chapters)"
  unfolding save_chapters_ok [OF assms(1)]
proof -
  have "written_names [Mkdir dir] = []" by (simp add: written_names_def)
  then show "written_names
     (fs_ops (snd (Inr (), print [Completed (length chapters)]
        (save_loop E dir 1 chapters (print [Saving] (w\<lparr>fs_ops := fs_ops w @ [Mkdir dir]\<rparr>))))))
     = map (\<lambda>(k, ch). chapter_filename k (fst ch)) (List.enumerate 1 chapters)"
    by (simp add: save_loop_names assms(2))
qed

lemma fmt02_small: "n < 10 \<Longrightarrow> fmt02 n = [48, 48 + n]"
  by (subst fmt02_def, subst str_nat.simps) simp

lemma str_nat_small: "n < 10 \<Longrightarrow> str_nat n = [48 + n]"
  by (subst str_nat.simps) simp


lemma process_item_long:
  "process_item plain_libs (str_item k long_text) = Inr (Accepted (u ''Untitled Chapter'') long_text)"
proof -
  have "extract_title_from_content [Text long_text] = u ''Untitled Chapter''"
    by (simp add: extract_title_from_content_def find_tag_def find_all_def)
  then show ?thesis
    using process_item_cases [of "str_item k long_text" "Str long_text" plain_libs long_text
        "[Text long_text]"] html_to_markdown_long_text length_long_text
    by (auto simp: str_item_def plain_libs_def soup_text_def strip_long_text)
qed

lemma process_item_cover:
  "process_item plain_libs (str_item k (u ''cover'')) = Inr (TooShort 5)"
  using process_item_cases [of "str_item k (u ''cover'')" "Str (u ''cover'')" plain_libs
      "u ''cover''" "[Text (u ''cover'')]"]
  by (simp add: str_item_def plain_libs_def soup_text_def strip_def is_space_def u_def)

lemma clean_filename_untitled: "clean_filename (u ''Untitled Chapter'') = u ''Untitled Chapter''"
  by (simp add: clean_filename_def clean_untruncated_def tag_re_def unsafe_re_def
      unsafe_chars_def spaces_re_def strip_def is_space_def u_def)



section \<open>Properties of the index file\<close>

lemma index_loop_lines:
  "index_loop i chapters =
     concat (map (\<lambda>((k, title, content), filename). toc_line k title filename)
               (zip (List.enumerate i chapters)
                    (map (\<lambda>(k, ch). chapter_filename k (fst ch)) (List.enumerate i chapters))))"
proof (induction chapters arbitrary: i)
  case Nil
  show ?case by simp
next
  case (Cons ch chapters)
  obtain title content where ch: "ch = (title, content)" by (cases ch)
  show ?case
    unfolding ch by (simp add: Cons.IH Let_def toc_line_def chapter_filename_def)
qed

lemma create_index_file_ops:
  assumes "get_book_info bk = Inr info"
    and "info (u ''title'') = Some t" and "info (u ''author'') = Some a"
    and "info (u ''language'') = Some l"
  shows "fs_ops (snd (create_index_file E bk dir chapters w))
           = fs_ops w @ [WriteText dir (u ''README.md'')
                           (index_header (str_of t) (str_of a) (str_of l) (length chapters)
                            @ index_loop 1 chapters)]"
  using assms
  by (cases "write_error E (u ''README.md'')")
     (simp_all add: create_index_file_def lookup_def write_text_def Let_def)

text \<open>
  Claim C9.  After \<open>save_chapters\<close> and \<open>create_index_file\<close> on the same chapter list, the
  file \<open>README.md\<close> is written with one line per chapter whose link target is \<open>./\<close> followed
  by exactly the name under which \<open>save_chapters\<close> wrote that chapter's file; that name is
  the position with two digits, an underscore, the sanitized title and \<open>.md\<close>.
\<close>

theorem index_links_match_filenames:
  assumes "mkdir_error E = None" and "fs_ops w = []"
    and "get_book_info bk = Inr info"
    and "info (u ''title'') = Some t" and "info (u ''author'') = Some a"
    and "info (u ''language'') = Some l"
  shows "length (written_names (fs_ops (snd (save_chapters E dir chapters w)))) = length chapters \<and>
         written_names (fs_ops (snd (save_chapters E dir chapters w)))
           = map (\<lambda>(i, title, content). chapter_filename i title) (List.enumerate 1 chapters) \<and>
         fs_ops (snd (create_index_file E bk dir chapters (snd (save_chapters E dir chapters w))))
           = fs_ops (snd (save_chapters E dir chapters w)) @
             [WriteText dir (u ''README.md'')
                (index_header (str_of t) (str_of a) (str_of l) (length chapters) @
                 concat (map (\<lambda>((i, title, content), filename). toc_line i title filename)
                           (zip (List.enumerate 1 chapters)
                                (written_names (fs_ops (snd (save_chapters E dir chapters w)))))))]"
proof -
  note n = save_chapters_names [OF assms(1,2), of dir chapters]
  have eq: "(\<lambda>(k, ch). chapter_filename k (fst ch))
              = (\<lambda>(i, title, content). chapter_filename i title)"
    by (auto simp: fun_eq_iff)
  have 1: "length (written_names (fs_ops (snd (save_chapters E dir chapters w)))) = length chapters"
    unfolding n by simp
  have 2: "written_names (fs_ops (snd (save_chapters E dir chapters w)))
           = map (\<lambda>(i, title, content). chapter_filename i title) (List.enumerate 1 chapters)"
    unfolding n eq ..
  have 3: "fs_ops (snd (create_index_file E bk dir chapters (snd (save_chapters E dir chapters w))))
           = fs_ops (snd (save_chapters E dir chapters w)) @
             [WriteText dir (u ''README.md'')
                (index_header (str_of t) (str_of a) (str_of l) (length chapters) @
                 concat (map (\<lambda>((i, title, content), filename). toc_line i title filename)
                           (zip (List.enumerate 1 chapters)
                                (written_names (fs_ops (snd (save_chapters E dir chapters w)))))))]"
    unfolding create_index_file_ops [OF assms(3-6)] index_loop_lines n ..
  from 1 2 3 show ?thesis by blast
qed

lemma test_book_info:
  "get_book_info (Some (book_of its))
     = Inr [u ''title'' \<mapsto> PyStr (u ''Test Book''), u ''author'' \<mapsto> PyStr (u ''A. Author''),
            u ''language'' \<mapsto> PyStr (u ''en'')]"
  by (simp add: get_book_info_def book_of_def test_metadata_def or_unknown_def first_value_def
      joined_values_def u_def)

lemma clean_filename_chapter:
  "clean_filename (u ''Chapter 1'') = u ''Chapter 1''"
  "clean_filename (u ''Chapter 2'') = u ''Chapter 2''"
  by (simp_all add: clean_filename_def clean_untruncated_def tag_re_def unsafe_re_def
      unsafe_chars_def spaces_re_def strip_def is_space_def u_def)

theorem index_links_match_filenames_witness:
  "written_names (fs_ops (snd (save_chapters (good_os (book_of [])) (u ''out'') two_chapters w0)))
     = [u ''01_Chapter 1.md'', u ''02_Chapter 2.md''] \<and>
   fs_ops (snd (create_index_file (good_os (book_of [])) (Some (book_of [])) (u ''out'')
             two_chapters (snd (save_chapters (good_os (book_of [])) (u ''out'') two_chapters w0))))
     = fs_ops (snd (save_chapters (good_os (book_of [])) (u ''out'') two_chapters w0)) @
       [WriteText (u ''out'') (u ''README.md'')
          (index_header (u ''Test Book'') (u ''A. Author'') (u ''en'') 2 @
           u ''1. [Chapter 1](./01_Chapter 1.md)'' @ [10] @
           u ''2. [Chapter 2](./02_Chapter 2.md)'' @ [10])]"
proof -
  have a: "mkdir_error (good_os (book_of [])) = None" by (simp add: good_os_def)
  have b: "fs_ops w0 = []" by (simp add: w0_def)
  have t: "[u ''title'' \<mapsto> PyStr (u ''Test Book''), u ''author'' \<mapsto> PyStr (u ''A. Author''),
            u ''language'' \<mapsto> PyStr (u ''en'')] (u ''title'') = Some (PyStr (u ''Test Book''))"
    and au: "[u ''title'' \<mapsto> PyStr (u ''Test Book''), u ''author'' \<mapsto> PyStr (u ''A. Author''),
            u ''language'' \<mapsto> PyStr (u ''en'')] (u ''author'') = Some (PyStr (u ''A. Author''))"
    and l: "[u ''title'' \<mapsto> PyStr (u ''Test Book''), u ''author'' \<mapsto> PyStr (u ''A. Author''),
            u ''language'' \<mapsto> PyStr (u ''en'')] (u ''language'') = Some (PyStr (u ''en''))"
    by (simp_all add: u_def)
  have names: "map (\<lambda>(i, title, content). chapter_filename i title) (List.enumerate 1 two_chapters)
               = [u ''01_Chapter 1.md'', u ''02_Chapter 2.md'']"
    by (simp add: two_chapters_def chapter_filename_def fmt02_small clean_filename_chapter,
        simp add: u_def)
  have len: "length two_chapters = 2" by (simp add: two_chapters_def)
  have lines: "concat (map (\<lambda>((i, title, content), filename). toc_line i title filename)
                 (zip (List.enumerate 1 two_chapters) [u ''01_Chapter 1.md'', u ''02_Chapter 2.md'']))
               = u ''1. [Chapter 1](./01_Chapter 1.md)'' @ [10] @
                 u ''2. [Chapter 2](./02_Chapter 2.md)'' @ [10]"
    by (simp add: two_chapters_def toc_line_def str_nat_small u_def)
  from index_links_match_filenames [OF a b test_book_info [of "[]"] t au l, of "u ''out''" two_chapters]
    names lines len
  show ?thesis by simp
qed

section \<open>Properties of the run\<close>

lemma console_print [simp]: "console (print es w) = console w @ es"
  by (simp add: print_def)

text \<open>
  Claim C10.  When the book loads and the pipeline accepts no chapter, \<open>process\<close> returns
  without an exception and makes no call on the file system: no directory is created and
  no file is written.  With valid arguments \<open>main\<close> then returns the exit code 0.
\<close>

theorem no_chapters_no_writes:
  assumes "load_epub E = Inr (b, title)" and "fst (process_chapters L b) = []"
    and "epub_exists a" and "lower (epub_suffix a) = u ''.epub''"
  shows "fst (process L E dir w) = Inr () \<and>
         fs_ops (snd (process L E dir w)) = fs_ops w \<and>
         last (console (snd (process L E dir w))) = NoChapters \<and>
         fst (main L E a w) = 0 \<and>
         fs_ops (snd (main L E a w)) = fs_ops w"
proof -
  obtain out where pc: "process_chapters L b = ([], out)"
    using assms(2) by (cases "process_chapters L b") simp
  have p: "process L E dir w = (Inr (), print [NoChapters] (print out (print [Loaded (str_of title)] (print [Processing] w))))" for dir
    by (simp add: process_def assms(1) pc Let_def)
  show ?thesis
    by (simp add: p main_def assms(3,4) Let_def)
qed

lemma load_test_book:
  "load_epub (good_os (book_of its)) = Inr (book_of its, PyStr (u ''Test Book''))"
  by (simp add: load_epub_def good_os_def book_of_def test_metadata_def first_value_def u_def)

lemma cover_only_chapters:
  "process_chapters plain_libs (book_of [str_item (u ''b'') (u ''cover'')])
     = ([], [FoundItems 1, SkipShort 1 5])"
proof -
  have "get_spine_items (book_of [str_item (u ''b'') (u ''cover'')])
          (spine (book_of [str_item (u ''b'') (u ''cover'')])) = [str_item (u ''b'') (u ''cover'')]"
    by (simp add: book_of_def str_item_def)
  then show ?thesis by (simp add: process_chapters_def process_item_cover)
qed

theorem no_chapters_no_writes_witness:
  "fst (main plain_libs (good_os (book_of [str_item (u ''b'') (u ''cover'')])) good_args w0) = 0 \<and>
   fs_ops (snd (main plain_libs (good_os (book_of [str_item (u ''b'') (u ''cover'')])) good_args w0)) = []"
proof -
  have a: "fst (process_chapters plain_libs (book_of [str_item (u ''b'') (u ''cover'')])) = []"
    by (simp add: cover_only_chapters)
  have b: "epub_exists good_args" by (simp add: good_args_def)
  have c: "lower (epub_suffix good_args) = u ''.epub''" by (simp add: good_args_def lower_def u_def)
  from no_chapters_no_writes [OF load_test_book a b c, of "u ''x''" w0]
  show ?thesis by (simp add: w0_def)
qed


section \<open>Errors of single fragments and single files\<close>

lemma chapters_loop_append:
  "chapters_loop L i (xs @ ys) =
     (fst (chapters_loop L i xs) @ fst (chapters_loop L (i + length xs) ys),
      snd (chapters_loop L i xs) @ snd (chapters_loop L (i + length xs) ys))"
  by (induction xs arbitrary: i)
     (auto simp: case_prod_unfold Let_def split: sum.splits verdict.splits)

text \<open>
  An exception in one fragment: the message carries the 1-based position of the fragment
  in the spine items, the fragment gives no chapter, and the fragments before and behind
  it are processed as they are without it.
\<close>

lemma fragment_error_isolated:
  assumes "process_item L item = Inl e"
  shows "chapters_loop L 1 (before @ item # rest) =
           (fst (chapters_loop L 1 before) @ fst (chapters_loop L (length before + 2) rest),
            snd (chapters_loop L 1 before) @
              ItemError (length before + 1) e # snd (chapters_loop L (length before + 2) rest))"
  using assms by (simp add: chapters_loop_append case_prod_unfold Let_def)

lemma load_failing_os:
  "load_epub (failing_os (book_of its) bad) = Inr (book_of its, PyStr (u ''Test Book''))"
  by (simp add: load_epub_def failing_os_def book_of_def test_metadata_def first_value_def u_def)

lemma one_chapter:
  "process_chapters plain_libs (book_of [str_item (u ''a'') long_text])
     = ([(u ''Untitled Chapter'', long_text)], [FoundItems 1, Processed (u ''Untitled Chapter'')])"
proof -
  have "get_spine_items (book_of [str_item (u ''a'') long_text])
          (spine (book_of [str_item (u ''a'') long_text])) = [str_item (u ''a'') long_text]"
    by (simp add: book_of_def str_item_def)
  then show ?thesis by (simp add: process_chapters_def process_item_long)
qed

lemma first_name:
  "fmt02 (Suc 0) @ u ''_'' @ clean_filename (u ''Untitled Chapter'') @ u ''.md''
     = u ''01_Untitled Chapter.md''"
  by (simp add: fmt02_small clean_filename_untitled, simp add: u_def)

lemma test_info_lookup:
  "lookup [u ''title'' \<mapsto> t, u ''author'' \<mapsto> a, u ''language'' \<mapsto> l] (u ''title'') = Inr t"
  "lookup [u ''title'' \<mapsto> t, u ''author'' \<mapsto> a, u ''language'' \<mapsto> l] (u ''author'') = Inr a"
  "lookup [u ''title'' \<mapsto> t, u ''author'' \<mapsto> a, u ''language'' \<mapsto> l] (u ''language'') = Inr l"
  by (simp_all add: lookup_def u_def)

lemma names_differ:
  "u ''01_Untitled Chapter.md'' \<noteq> u ''README.md''"
  "u ''README.md'' \<noteq> u ''01_Untitled Chapter.md''"
  by (simp_all add: u_def)

text \<open>
  Claim C1, at an input where it fails.  The book has one fragment, which is accepted;
  writing \<open>README.md\<close> raises \<open>OSError\<close>.  The chapter file has been written, the exception
  leaves \<open>create_index_file\<close> and \<open>process\<close>, and \<open>main\<close> reports it and returns 1.  When the
  write of the chapter file raises instead, \<open>save_chapters\<close> catches it and \<open>main\<close> returns 0.
\<close>

theorem index_write_error_escalates:
  "fst (main plain_libs (failing_os (book_of [str_item (u ''a'') long_text]) (u ''README.md''))
          good_args w0) = 1 \<and>
   last (console (snd (main plain_libs
          (failing_os (book_of [str_item (u ''a'') long_text]) (u ''README.md'')) good_args w0)))
     = MainError OSError \<and>
   written_names (fs_ops (snd (main plain_libs
          (failing_os (book_of [str_item (u ''a'') long_text]) (u ''README.md'')) good_args w0)))
     = [u ''01_Untitled Chapter.md'', u ''README.md''] \<and>
   fst (main plain_libs
          (failing_os (book_of [str_item (u ''a'') long_text]) (u ''01_Untitled Chapter.md''))
          good_args w0) = 0"
proof -
  let ?b = "book_of [str_item (u ''a'') long_text]"
  have ga: "epub_exists good_args" "lower (epub_suffix good_args) = u ''.epub''"
    "output_arg good_args = None"
    by (simp_all add: good_args_def lower_def u_def)
  have w: "write_error (failing_os ?b bad) f = (if f = bad then Some OSError else None)"
    "mkdir_error (failing_os ?b bad) = None" for bad f
    by (simp_all add: failing_os_def)
  have 1: "main plain_libs (failing_os ?b (u ''README.md'')) good_args w0
           = (1, \<lparr>fs_ops = [Mkdir (default_dir good_args),
                              WriteText (default_dir good_args) (u ''01_Untitled Chapter.md'')
                                (u ''# '' @ u ''Untitled Chapter'' @ [10, 10] @ long_text),
                              WriteText (default_dir good_args) (u ''README.md'')
                                (index_header (u ''Test Book'') (u ''A. Author'') (u ''en'') 1 @
                                 index_loop 1 [(u ''Untitled Chapter'', long_text)])],
                    console = [Processing, Loaded (u ''Test Book''), FoundItems 1,
                               Processed (u ''Untitled Chapter''), Saving,
                               Saved (u ''01_Untitled Chapter.md''), Completed 1,
                               MainError OSError]\<rparr>)"
    by (simp add: main_def ga process_def load_failing_os one_chapter save_chapters_def
        mkdir_def write_text_def w first_name names_differ create_index_file_def
        test_book_info test_info_lookup print_def w0_def Let_def
        del: index_loop.simps)
  have 2: "fst (main plain_libs (failing_os ?b (u ''01_Untitled Chapter.md'')) good_args w0) = 0"
    by (simp add: main_def ga process_def load_failing_os one_chapter save_chapters_def
        mkdir_def write_text_def w first_name names_differ create_index_file_def
        test_book_info test_info_lookup print_def w0_def Let_def
        del: index_loop.simps)
  show ?thesis unfolding 1 using 2 by (simp add: written_names_def)
qed

section \<open>Missing metadata\<close>

text \<open>
  Claim C2, at inputs where it fails.  For a book without a title field \<open>load_epub\<close> raises
  (the index into the empty list, raised again as a load failure) and \<open>main\<close> returns 1,
  although \<open>get_book_info\<close> resolves the same missing title to \<open>Unknown\<close>.  For a book
  without a creator field the author is the empty string, not \<open>Unknown\<close>.  A missing
  language is resolved to \<open>Unknown\<close>.  When \<open>get_metadata\<close> raises \<open>KeyError\<close> instead of
  returning the empty list, the load fails on the title in the same way, and the author
  is resolved to \<open>Unknown\<close>.  When the creator element is there without text, its value is
  \<open>None\<close> and \<open>get_book_info\<close> raises \<open>TypeError\<close>.
\<close>

theorem missing_title_fails_load:
  "load_epub (good_os (book_without (u ''title'') [str_item (u ''a'') long_text]))
     = Inl (LoadFailed IndexError) \<and>
   main plain_libs (good_os (book_without (u ''title'') [str_item (u ''a'') long_text]))
     good_args w0
     = (1, \<lparr>fs_ops = [], console = [Processing, MainError (LoadFailed IndexError)]\<rparr>) \<and>
   info_field (book_without (u ''title'') []) (u ''title'') = Inr (PyStr (u ''Unknown'')) \<and>
   info_field (book_without (u ''creator'') []) (u ''author'') = Inr (PyStr []) \<and>
   info_field (book_without (u ''language'') []) (u ''language'') = Inr (PyStr (u ''Unknown'')) \<and>
   load_epub (good_os (book_raising (u ''title'') [])) = Inl (LoadFailed KeyError) \<and>
   info_field (book_raising (u ''creator'') []) (u ''author'') = Inr (PyStr (u ''Unknown'')) \<and>
   info_field (book_blank_creator []) (u ''author'') = Inl TypeError"
proof -
  have n: "info_field (book_blank_creator []) (u ''author'') = Inl TypeError"
    by (simp add: info_field_def get_book_info_def book_blank_creator_def test_metadata_def
        first_value_def joined_values_def or_unknown_def lookup_def u_def)
  have k: "load_epub (good_os (book_raising (u ''title'') [])) = Inl (LoadFailed KeyError)"
    by (simp add: load_epub_def good_os_def book_raising_def first_value_def)
  have r: "info_field (book_raising (u ''creator'') []) (u ''author'') = Inr (PyStr (u ''Unknown''))"
    by (simp add: info_field_def get_book_info_def book_raising_def test_metadata_def
        first_value_def joined_values_def or_unknown_def lookup_def, simp add: u_def)
  have l: "load_epub (good_os (book_without (u ''title'') [str_item (u ''a'') long_text]))
     = Inl (LoadFailed IndexError)"
    by (simp add: load_epub_def good_os_def book_without_def first_value_def)
  have m: "main plain_libs (good_os (book_without (u ''title'') [str_item (u ''a'') long_text]))
     good_args w0
     = (1, \<lparr>fs_ops = [], console = [Processing, MainError (LoadFailed IndexError)]\<rparr>)"
    by (simp add: main_def good_args_def lower_def process_def l print_def w0_def Let_def,
        simp add: u_def)
  have t: "info_field (book_without (u ''title'') []) (u ''title'') = Inr (PyStr (u ''Unknown''))"
    by (simp add: info_field_def get_book_info_def book_without_def test_metadata_def
        first_value_def joined_values_def or_unknown_def lookup_def, simp add: u_def)
  have a: "info_field (book_without (u ''creator'') []) (u ''author'') = Inr (PyStr [])"
    by (simp add: info_field_def get_book_info_def book_without_def test_metadata_def
        first_value_def joined_values_def or_unknown_def lookup_def u_def)
  have g: "info_field (book_without (u ''language'') []) (u ''language'') = Inr (PyStr (u ''Unknown''))"
    by (simp add: info_field_def get_book_info_def book_without_def test_metadata_def
        first_value_def joined_values_def or_unknown_def lookup_def)
  from l m t a g k r n show ?thesis by blast
qed

end
